theory Spec2Isabelle
  imports Main
begin

section \<open>Data model of \<open>src/Gaffer/Process.cpp\<close>\<close>

text \<open>
  Pointers to plugs, nodes and monitors are their addresses. A nullable pointer is an
  \<open>option\<close>, with \<open>None\<close> for \<open>nullptr\<close>.
\<close>

type_synonym plug = nat
type_synonym node = nat
type_synonym monitor = nat

text \<open>
  The graph is external to the file: the three members of \<open>Plug\<close> that \<open>emitError\<close>
  calls are taken as parameters.
\<close>

datatype direction = Invalid | In | Out

record graph =
  direction :: "plug \<Rightarrow> direction"
  node :: "plug \<Rightarrow> node option"
  getInput :: "plug \<Rightarrow> plug option"

text \<open>
  The active exception, as the three \<open>catch\<close> clauses of \<open>handleException\<close> tell it
  apart: \<open>IECore::Cancelled\<close>, a \<open>std::exception\<close> with its \<open>what()\<close>, and anything
  else (the payload stands for the identity of the foreign exception object).
\<close>

datatype exn = Cancelled | StdException string | Untyped nat

text \<open>
  A \<open>Process\<close> is never mutated after its constructor has run, so the non-owning
  pointer \<open>m_parent\<close> is modelled by the value it points to. \<open>addr\<close> is the address of
  the object (\<open>this\<close>), which tells apart two processes with equal members.
\<close>

datatype process = Process
  (addr: nat)
  (m_type: string)
  (m_plug: "plug option")
  (m_downstream: "plug option")
  (m_parent: "process option")

text \<open>
  Calls that leave the file are recorded in a trace, in the order they are made:
  the two callbacks of a monitor, the error signal of a node, and
  \<open>BackgroundTask::cancelAllTasks\<close>. A callback is taken to return normally.
\<close>

datatype event =
    ProcessStarted monitor process
  | ProcessFinished monitor process
  | ErrorSignal node plug "plug option" string
  | CancelAllTasks

text \<open>
  The state one thread sees: the canceller of its current context (\<open>cancelled\<close> holds
  when cancellation has been requested), the \<open>m_process\<close> member of its thread state,
  the global \<open>g_activeMonitors\<close>, its own slot of \<open>g_errorSource\<close>, and the trace.
  \<open>g_activeMonitors\<close> is a \<open>boost::container::flat_set<Monitor *>\<close>: a vector kept in
  ascending order of the pointers, without duplicates, and iterated in that order.
\<close>

record state =
  cancelled :: bool
  m_process :: "process option"
  g_activeMonitors :: "monitor list"
  g_errorSource :: "plug option"
  trace :: "event list"

section \<open>The monitor registry\<close>

text \<open>
  The three members of the \<open>flat_set\<close> the file calls: \<open>insert\<close> puts a key at its
  place in the order unless the key is there, \<open>erase\<close> removes the elements equal to
  a key, \<open>find\<close> differs from \<open>end()\<close> when the key is an element.
\<close>

fun flat_set_insert :: "monitor \<Rightarrow> monitor list \<Rightarrow> monitor list" where
  "flat_set_insert m [] = [m]"
| "flat_set_insert m (x # xs) =
     (if m < x then m # x # xs
      else if m = x then x # xs
      else x # flat_set_insert m xs)"

definition flat_set_erase :: "monitor \<Rightarrow> monitor list \<Rightarrow> monitor list" where
  "flat_set_erase m xs = filter (\<lambda>x. x \<noteq> m) xs"

definition flat_set_find :: "monitor \<Rightarrow> monitor list \<Rightarrow> bool" where
  "flat_set_find m xs = (m \<in> set xs)"

text \<open>
  Modelled from the spec: \<open>BackgroundTask::cancelAllTasks\<close> is not in the file. The
  spec has it stop the background work of the other threads before it returns; it
  writes nothing of what this thread sees, so the call is only recorded.
\<close>

definition cancelAllTasks :: "state \<Rightarrow> state" where
  "cancelAllTasks s = s\<lparr>trace := trace s @ [CancelAllTasks]\<rparr>"

definition registerMonitor :: "monitor \<Rightarrow> state \<Rightarrow> state" where
  "registerMonitor monitor s =
     (let s1 = cancelAllTasks s
      in s1\<lparr>g_activeMonitors := flat_set_insert monitor (g_activeMonitors s1)\<rparr>)"

definition deregisterMonitor :: "monitor \<Rightarrow> state \<Rightarrow> state" where
  "deregisterMonitor monitor s =
     (let s1 = cancelAllTasks s
      in s1\<lparr>g_activeMonitors := flat_set_erase monitor (g_activeMonitors s1)\<rparr>)"

definition monitorRegistered :: "monitor \<Rightarrow> state \<Rightarrow> bool" where
  "monitorRegistered monitor s = flat_set_find monitor (g_activeMonitors s)"

section \<open>Construction, destruction, \<open>current\<close>\<close>

text \<open>
  Modelled from the spec: \<open>IECore::Canceller::check\<close> is not in the file. The spec
  gives the cancellation handle a check operation that fails with a Cancelled signal
  when cancellation has been requested.
\<close>

definition Canceller_check :: "bool \<Rightarrow> exn + unit" where
  "Canceller_check requested = (if requested then Inl Cancelled else Inr ())"

text \<open>The two loops over \<open>g_activeMonitors\<close>, from \<open>begin()\<close> to \<open>end()\<close>.\<close>

fun processStarted_loop :: "monitor list \<Rightarrow> process \<Rightarrow> state \<Rightarrow> state" where
  "processStarted_loop [] p s = s"
| "processStarted_loop (m # ms) p s =
     processStarted_loop ms p (s\<lparr>trace := trace s @ [ProcessStarted m p]\<rparr>)"

fun processFinished_loop :: "monitor list \<Rightarrow> process \<Rightarrow> state \<Rightarrow> state" where
  "processFinished_loop [] p s = s"
| "processFinished_loop (m # ms) p s =
     processFinished_loop ms p (s\<lparr>trace := trace s @ [ProcessFinished m p]\<rparr>)"

text \<open>
  The body of the constructor, for the object at address \<open>self\<close>. An exception leaves
  with the state as it was when it was thrown; the object then never comes to life.
\<close>

definition Process_ctor ::
  "nat \<Rightarrow> string \<Rightarrow> plug option \<Rightarrow> plug option \<Rightarrow> state \<Rightarrow> (exn + process) \<times> state" where
  "Process_ctor self type plug downstream s =
     (case Canceller_check (cancelled s) of
        Inl e \<Rightarrow> (Inl e, s)
      | Inr _ \<Rightarrow>
          (let p = Process self type plug
                     (case downstream of Some d \<Rightarrow> Some d | None \<Rightarrow> plug)
                     (m_process s);
               s1 = s\<lparr>m_process := Some p\<rparr>
           in (Inr p, processStarted_loop (g_activeMonitors s1) p s1)))"

text \<open>The body of the destructor.\<close>

definition Process_dtor :: "process \<Rightarrow> state \<Rightarrow> state" where
  "Process_dtor self s =
     (let s1 = processFinished_loop (g_activeMonitors s) self s
      in if m_parent self = None then s1\<lparr>g_errorSource := None\<rparr> else s1)"

definition current :: "state \<Rightarrow> process option" where
  "current s = m_process s"

text \<open>A thread with no process, no monitor, no error source and an empty trace.\<close>

definition idle :: state where
  "idle = \<lparr>cancelled = False, m_process = None, g_activeMonitors = [],
           g_errorSource = None, trace = []\<rparr>"

section \<open>The thread-state scope and runs of one thread\<close>

text \<open>
  Modelled from the spec: the thread-state scope that a \<open>Process\<close> is built on
  (\<open>ThreadState::Scope\<close>) is not in the file. The spec has a process unlink itself
  from the thread's stack on destruction, by a guard whose release runs on every exit
  path: once the destructor body has run, the slot of the current process is restored
  to the parent of the process.
\<close>

definition Scope_release :: "process \<Rightarrow> state \<Rightarrow> state" where
  "Scope_release self s = s\<lparr>m_process := m_parent self\<rparr>"

text \<open>
  What one thread does with processes: it constructs one, it destroys the most recently
  constructed one that is still alive (the objects live on the call stack), or its
  canceller is set or reset from outside. A run carries the list of the processes that
  are constructed and not yet destroyed, the most recent first.
\<close>

datatype op = Construct nat string "plug option" "plug option" | Destruct | SetCancelled bool

fun step :: "op \<Rightarrow> state \<times> process list \<Rightarrow> state \<times> process list" where
  "step (Construct a type plug downstream) (s, live) =
     (case Process_ctor a type plug downstream s of
        (Inl e, s1) \<Rightarrow> (s1, live)
      | (Inr p, s1) \<Rightarrow> (s1, p # live))"
| "step Destruct (s, []) = (s, [])"
| "step Destruct (s, p # live) = (Scope_release p (Process_dtor p s), live)"
| "step (SetCancelled b) (s, live) = (s\<lparr>cancelled := b\<rparr>, live)"

definition run :: "op list \<Rightarrow> state \<times> process list \<Rightarrow> state \<times> process list" where
  "run ops c = fold step ops c"

text \<open>The parent chain of a process, from the process itself to its root.\<close>

fun parent_chain :: "process \<Rightarrow> process list" where
  "parent_chain (Process a type plug downstream parent) =
     Process a type plug downstream parent #
       (case parent of None \<Rightarrow> [] | Some q \<Rightarrow> parent_chain q)"

definition current_chain :: "state \<Rightarrow> process list" where
  "current_chain s = (case current s of None \<Rightarrow> [] | Some p \<Rightarrow> parent_chain p)"

text \<open>A history of the registry.\<close>

datatype registry_op = Register monitor | Deregister monitor

fun apply_registry_op :: "registry_op \<Rightarrow> state \<Rightarrow> state" where
  "apply_registry_op (Register m) s = registerMonitor m s"
| "apply_registry_op (Deregister m) s = deregisterMonitor m s"

section \<open>Error reporting and exception handling\<close>

definition errorSignal :: "node \<Rightarrow> plug \<Rightarrow> plug option \<Rightarrow> string \<Rightarrow> state \<Rightarrow> state" where
  "errorSignal n plug source error s = s\<lparr>trace := trace s @ [ErrorSignal n plug source error]\<rparr>"

text \<open>
  The \<open>while\<close> loop of \<open>emitError\<close>. Nothing in the file bounds the chain of inputs, so
  the loop is a partial function: \<open>None\<close> is a walk that never ends.
\<close>

partial_function (option) emitError_loop ::
  "graph \<Rightarrow> process \<Rightarrow> string \<Rightarrow> plug option \<Rightarrow> state \<Rightarrow> state option" where
  "emitError_loop G self error plug s =
     (case plug of
        None \<Rightarrow> Some s
      | Some pl \<Rightarrow>
          emitError_loop G self error
            (if Some pl \<noteq> m_plug self then getInput G pl else None)
            (if direction G pl = Out
             then (case node G pl of
                     Some n \<Rightarrow> errorSignal n pl (g_errorSource s) error s
                   | None \<Rightarrow> s)
             else s))"

definition emitError :: "graph \<Rightarrow> process \<Rightarrow> string \<Rightarrow> state \<Rightarrow> state option" where
  "emitError G self error s = emitError_loop G self error (m_downstream self) s"

text \<open>
  \<open>handleException\<close>, given the active exception. \<open>Inl e\<close> is leaving by throwing \<open>e\<close>,
  \<open>Inr ()\<close> would be a normal return, and \<open>None\<close> is the walk of \<open>emitError\<close> never
  ending.
\<close>

definition handleException ::
  "graph \<Rightarrow> process \<Rightarrow> exn \<Rightarrow> state \<Rightarrow> ((exn + unit) \<times> state) option" where
  "handleException G self active s =
     (case active of
        Cancelled \<Rightarrow> Some (Inl Cancelled, s)
      | StdException what \<Rightarrow>
          (let s1 = (if g_errorSource s = None then s\<lparr>g_errorSource := m_plug self\<rparr> else s)
           in case emitError G self what s1 of
                None \<Rightarrow> None
              | Some s2 \<Rightarrow> Some (Inl (StdException what), s2))
      | Untyped x \<Rightarrow>
          (let s1 = (if g_errorSource s = None then s\<lparr>g_errorSource := m_plug self\<rparr> else s)
           in case emitError G self ''Unknown error'' s1 of
                None \<Rightarrow> None
              | Some s2 \<Rightarrow> Some (Inl (Untyped x), s2)))"

text \<open>
  The walk as the spec words it: start at the downstream point, go upstream through
  each point's input connection while the point is not the target, stop at the target
  or where there is no input. The fuel \<open>n\<close> bounds the number of points; \<open>None\<close> is
  a walk longer than that.
\<close>

fun spec_walk :: "graph \<Rightarrow> plug option \<Rightarrow> nat \<Rightarrow> plug option \<Rightarrow> plug list option" where
  "spec_walk G target n None = Some []"
| "spec_walk G target 0 (Some pl) = None"
| "spec_walk G target (Suc n) (Some pl) =
     (if Some pl = target then Some [pl]
      else map_option ((#) pl) (spec_walk G target n (getInput G pl)))"

text \<open>
  The callbacks the spec asks for along a walk: one for each point that is an output
  point and belongs to a node, with the point, the recorded error source and the message.
\<close>

definition spec_reports :: "graph \<Rightarrow> plug option \<Rightarrow> string \<Rightarrow> plug list \<Rightarrow> event list" where
  "spec_reports G source error ps =
     concat (map (\<lambda>pl. case node G pl of
                          Some n \<Rightarrow> if direction G pl = Out then [ErrorSignal n pl source error] else []
                        | None \<Rightarrow> []) ps)"


text \<open>
  A graph for examples: plug \<open>p + 1\<close> takes its input from plug \<open>p\<close> and plug 0 has
  no input; plug 3 is an input plug, the others are output plugs; plug 5 belongs to no
  node, plug \<open>p\<close> otherwise to node \<open>p + 10\<close>.
\<close>

definition line_graph :: graph where
  "line_graph = \<lparr>direction = (\<lambda>p. if p = 3 then In else Out),
                  node = (\<lambda>p. if p = 5 then None else Some (p + 10)),
                  getInput = (\<lambda>p. if p = 0 then None else Some (p - 1))\<rparr>"

section \<open>Facts about the loops\<close>

lemma processStarted_loop_eq:
  "processStarted_loop ms p s = s\<lparr>trace := trace s @ map (\<lambda>m. ProcessStarted m p) ms\<rparr>"
  by (induction ms arbitrary: s) simp_all

lemma processFinished_loop_eq:
  "processFinished_loop ms p s = s\<lparr>trace := trace s @ map (\<lambda>m. ProcessFinished m p) ms\<rparr>"
  by (induction ms arbitrary: s) simp_all

lemma emitError_loop_None [simp]: "emitError_loop G self error None s = Some s"
  by (subst emitError_loop.simps) simp

lemma emitError_loop_Some:
  "emitError_loop G self error (Some pl) s =
     emitError_loop G self error
       (if Some pl \<noteq> m_plug self then getInput G pl else None)
       (if direction G pl = Out
        then (case node G pl of
                Some n \<Rightarrow> errorSignal n pl (g_errorSource s) error s
              | None \<Rightarrow> s)
        else s)"
  by (subst emitError_loop.simps) simp

lemma spec_reports_Nil [simp]: "spec_reports G src error [] = []"
  by (simp add: spec_reports_def)

lemma spec_reports_Cons:
  "spec_reports G src error (pl # ps) =
     (case node G pl of
        Some n \<Rightarrow> if direction G pl = Out then [ErrorSignal n pl src error] else []
      | None \<Rightarrow> []) @ spec_reports G src error ps"
  by (simp add: spec_reports_def)

lemma emitError_loop_walk:
  "spec_walk G t n cur = Some ps \<Longrightarrow> m_plug self = t \<Longrightarrow>
   emitError_loop G self error cur s =
     Some (s\<lparr>trace := trace s @ spec_reports G (g_errorSource s) error ps\<rparr>)"
proof (induction G t n cur arbitrary: ps s rule: spec_walk.induct)
  case (1 G t n)
  then show ?case by simp
next
  case (2 G t pl)
  then show ?case by simp
next
  case (3 G t n pl)
  show ?case
  proof (cases "Some pl = t")
    case True
    then have t: "t = Some pl" by simp
    from "3.prems"(1) have "ps = [pl]" unfolding t by simp
    moreover from "3.prems"(2) have "m_plug self = Some pl" unfolding t .
    ultimately show ?thesis
      by (auto simp: emitError_loop_Some spec_reports_Cons errorSignal_def split: option.splits)
  next
    case False
    with 3 obtain qs where qs: "spec_walk G t n (getInput G pl) = Some qs" "ps = pl # qs"
      by auto
    have ne: "Some pl \<noteq> m_plug self" using False 3 by simp
    show ?thesis
      using "3.IH"[OF False qs(1) "3.prems"(2)] qs(2) ne
      by (auto simp: emitError_loop_Some spec_reports_Cons errorSignal_def split: option.splits)
  qed
qed

lemma spec_walk_start:
  "spec_walk G t n cur = Some ps \<Longrightarrow> (case ps of [] \<Rightarrow> cur = None | pl # _ \<Rightarrow> cur = Some pl)"
  by (induction G t n cur arbitrary: ps rule: spec_walk.induct) (auto split: if_splits)

lemma spec_walk_links:
  "spec_walk G t n cur = Some ps \<Longrightarrow> Suc i < length ps \<Longrightarrow>
   getInput G (ps ! i) = Some (ps ! Suc i) \<and> Some (ps ! i) \<noteq> t"
proof (induction G t n cur arbitrary: ps i rule: spec_walk.induct)
  case (3 G t n pl)
  show ?case
  proof (cases "Some pl = t")
    case True
    with 3 have "ps = [pl]" by auto
    with 3 show ?thesis by simp
  next
    case False
    with 3 obtain qs where qs: "spec_walk G t n (getInput G pl) = Some qs" "ps = pl # qs"
      by auto
    from spec_walk_start[OF qs(1)] 3 qs False show ?thesis
      by (cases i) (auto split: list.splits)
  qed
qed auto

lemma spec_walk_target:
  "spec_walk G (Some t) n (Some t) = Some ps \<Longrightarrow> ps = [t]"
  by (cases n) auto






lemma parent_chain_unfold:
  "parent_chain p = p # (case m_parent p of None \<Rightarrow> [] | Some q \<Rightarrow> parent_chain q)"
  by (cases p) simp


lemma set_flat_set_insert: "set (flat_set_insert m xs) = insert m (set xs)"
  by (induction xs) auto

lemma flat_set_insert_sorted:
  "sorted xs \<Longrightarrow> distinct xs \<Longrightarrow>
   sorted (flat_set_insert m xs) \<and> distinct (flat_set_insert m xs)"
  by (induction xs) (auto simp: set_flat_set_insert)

lemma flat_set_erase_sorted:
  "sorted xs \<Longrightarrow> distinct xs \<Longrightarrow>
   sorted (flat_set_erase m xs) \<and> distinct (flat_set_erase m xs)"
  by (simp add: flat_set_erase_def sorted_wrt_filter)

lemma apply_registry_op_sorted:
  "sorted (g_activeMonitors s) \<and> distinct (g_activeMonitors s) \<Longrightarrow>
   sorted (g_activeMonitors (apply_registry_op x s)) \<and>
   distinct (g_activeMonitors (apply_registry_op x s))"
  by (cases x)
    (simp_all add: registerMonitor_def deregisterMonitor_def cancelAllTasks_def
      flat_set_insert_sorted flat_set_erase_sorted)

lemma fold_registry_sorted:
  "sorted (g_activeMonitors s) \<and> distinct (g_activeMonitors s) \<Longrightarrow>
   sorted (g_activeMonitors (fold apply_registry_op ops s)) \<and>
   distinct (g_activeMonitors (fold apply_registry_op ops s))"
  by (induction ops arbitrary: s) (simp_all add: apply_registry_op_sorted)

lemma step_linked:
  assumes "current s = (case live of [] \<Rightarrow> None | p # _ \<Rightarrow> Some p)"
    and "current_chain s = live"
    and "step x (s, live) = (s', live')"
  shows "current s' = (case live' of [] \<Rightarrow> None | p # _ \<Rightarrow> Some p) \<and> current_chain s' = live'"
proof (cases x)
  case (Construct a ty pl d)
  show ?thesis
  proof (cases "cancelled s")
    case True
    with Construct assms show ?thesis
      by (simp add: Process_ctor_def Canceller_check_def)
  next
    case False
    with Construct assms show ?thesis
      by (auto simp: Process_ctor_def Canceller_check_def processStarted_loop_eq Let_def
          current_def current_chain_def split: option.splits)
  qed
next
  case Destruct
  show ?thesis
  proof (cases live)
    case Nil
    with Destruct assms show ?thesis by simp
  next
    case (Cons p rest)
    with assms(1,2) have chain: "parent_chain p = p # rest"
      by (simp add: current_chain_def)
    have s': "s' = Scope_release p (Process_dtor p s)" and l': "live' = rest"
      using assms(3) Destruct Cons by simp_all
    have cur: "current s' = m_parent p"
      by (simp add: s' Scope_release_def current_def)
    show ?thesis
    proof (cases "m_parent p")
      case None
      with chain parent_chain_unfold [of p] have "rest = []" by simp
      with None cur l' show ?thesis by (simp add: current_chain_def)
    next
      case (Some q)
      with chain parent_chain_unfold [of p] have "parent_chain q = rest" by simp
      moreover from this parent_chain_unfold [of q] obtain qs where "rest = q # qs" by auto
      ultimately show ?thesis using Some cur l' by (simp add: current_chain_def)
    qed
  qed
next
  case (SetCancelled b)
  with assms show ?thesis
    by (auto simp: current_def current_chain_def)
qed

lemma run_linked:
  "current s = (case live of [] \<Rightarrow> None | p # _ \<Rightarrow> Some p) \<Longrightarrow>
   current_chain s = live \<Longrightarrow> run ops (s, live) = (s', live') \<Longrightarrow>
   current s' = (case live' of [] \<Rightarrow> None | p # _ \<Rightarrow> Some p) \<and> current_chain s' = live'"
proof (induction ops arbitrary: s live)
  case Nil
  then show ?case by (simp add: run_def)
next
  case (Cons x ops)
  obtain s1 live1 where st: "step x (s, live) = (s1, live1)"
    by (cases "step x (s, live)")
  from step_linked [OF Cons.prems(1,2) st]
  have "current s1 = (case live1 of [] \<Rightarrow> None | p # _ \<Rightarrow> Some p)" "current_chain s1 = live1"
    by simp_all
  moreover from Cons.prems(3) st have "run ops (s1, live1) = (s', live')"
    by (simp add: run_def)
  ultimately show ?case by (rule Cons.IH)
qed

section \<open>Cancellation at construction\<close>

text \<open>
  C1. A construction on a thread whose canceller reports that cancellation has been
  requested fails with \<open>Cancelled\<close> and leaves the whole state as it was: the slot of
  the current process is not written and the trace gains no \<open>ProcessStarted\<close> (nor any
  other) event.
\<close>

theorem ctor_cancelled:
  "cancelled s \<Longrightarrow> Process_ctor self type plug downstream s = (Inl Cancelled, s)"
  by (simp add: Process_ctor_def Canceller_check_def)

theorem ctor_cancelled_witness:
  "cancelled (idle\<lparr>cancelled := True, g_activeMonitors := [3, 7]\<rparr>) \<and>
   Process_ctor 1 ''compute'' (Some 5) None (idle\<lparr>cancelled := True, g_activeMonitors := [3, 7]\<rparr>)
     = (Inl Cancelled, idle\<lparr>cancelled := True, g_activeMonitors := [3, 7]\<rparr>)"
  using ctor_cancelled [of "idle\<lparr>cancelled := True, g_activeMonitors := [3, 7]\<rparr>" 1 "''compute''" "Some 5" None]
  by simp

section \<open>Destruction\<close>

text \<open>
  C8. The destructor of a process without a parent clears the recorded error source, so
  the next root process constructed on the thread starts without one; the destructor
  of a process with a parent leaves the recorded error source as it was.
\<close>

theorem dtor_error_source:
  "(m_parent self = None \<longrightarrow>
      g_errorSource (Process_dtor self s) = None \<and>
      g_errorSource (snd (Process_ctor a type plug downstream (Process_dtor self s))) = None) \<and>
   (m_parent self \<noteq> None \<longrightarrow>
      g_errorSource (Process_dtor self s) = g_errorSource s)"
  by (simp add: Process_dtor_def Process_ctor_def Canceller_check_def
      processFinished_loop_eq processStarted_loop_eq Let_def split: sum.split)

theorem dtor_error_source_witness:
  "g_errorSource (Process_dtor (Process 1 ''compute'' (Some 5) (Some 5) None)
      (idle\<lparr>g_errorSource := Some 9\<rparr>)) = None \<and>
   g_errorSource (snd (Process_ctor 2 ''hash'' (Some 6) None
      (Process_dtor (Process 1 ''compute'' (Some 5) (Some 5) None)
         (idle\<lparr>g_errorSource := Some 9\<rparr>)))) = None \<and>
   g_errorSource (Process_dtor
      (Process 2 ''compute'' (Some 6) (Some 6) (Some (Process 1 ''compute'' (Some 5) (Some 5) None)))
      (idle\<lparr>g_errorSource := Some 9\<rparr>)) = Some 9"
  using dtor_error_source [of "Process 1 ''compute'' (Some 5) (Some 5) None"
      "idle\<lparr>g_errorSource := Some 9\<rparr>" 2 "''hash''" "Some 6" None]
    dtor_error_source [of
      "Process 2 ''compute'' (Some 6) (Some 6) (Some (Process 1 ''compute'' (Some 5) (Some 5) None))"
      "idle\<lparr>g_errorSource := Some 9\<rparr>"]
  by (simp add: idle_def)

text \<open>
  C10. The destructor does not write the slot of the current process: the slot holds
  after the destructor what it held before, and a process that was made current by its
  constructor is still what \<open>current\<close> returns once its destructor has run.
\<close>

theorem dtor_keeps_slot:
  "m_process (Process_dtor self s) = m_process s \<and>
   (Process_ctor a type plug downstream s = (Inr p, s1) \<longrightarrow>
      current (Process_dtor p s1) = Some p)"
  by (auto simp: Process_dtor_def Process_ctor_def Canceller_check_def current_def
      processFinished_loop_eq processStarted_loop_eq Let_def split: if_splits)

theorem dtor_keeps_slot_witness:
  "Process_ctor 1 ''compute'' (Some 5) None (idle\<lparr>g_activeMonitors := [3]\<rparr>) =
     (Inr (Process 1 ''compute'' (Some 5) (Some 5) None),
      idle\<lparr>m_process := Some (Process 1 ''compute'' (Some 5) (Some 5) None),
           g_activeMonitors := [3],
           trace := [ProcessStarted 3 (Process 1 ''compute'' (Some 5) (Some 5) None)]\<rparr>) \<and>
   current (Process_dtor (Process 1 ''compute'' (Some 5) (Some 5) None)
     (idle\<lparr>m_process := Some (Process 1 ''compute'' (Some 5) (Some 5) None),
           g_activeMonitors := [3],
           trace := [ProcessStarted 3 (Process 1 ''compute'' (Some 5) (Some 5) None)]\<rparr>))
     = Some (Process 1 ''compute'' (Some 5) (Some 5) None)"
proof -
  have c: "Process_ctor 1 ''compute'' (Some 5) None (idle\<lparr>g_activeMonitors := [3]\<rparr>) =
     (Inr (Process 1 ''compute'' (Some 5) (Some 5) None),
      idle\<lparr>m_process := Some (Process 1 ''compute'' (Some 5) (Some 5) None),
           g_activeMonitors := [3],
           trace := [ProcessStarted 3 (Process 1 ''compute'' (Some 5) (Some 5) None)]\<rparr>)"
    by (simp add: Process_ctor_def Canceller_check_def idle_def Let_def)
  show ?thesis
    using c dtor_keeps_slot [where s = "idle\<lparr>g_activeMonitors := [3]\<rparr>" and a = 1
        and type = "''compute''" and plug = "Some 5" and downstream = None
        and p = "Process 1 ''compute'' (Some 5) (Some 5) None"
        and ?s1.0 = "idle\<lparr>m_process := Some (Process 1 ''compute'' (Some 5) (Some 5) None),
           g_activeMonitors := [3],
           trace := [ProcessStarted 3 (Process 1 ''compute'' (Some 5) (Some 5) None)]\<rparr>"]
    by blast
qed

section \<open>Membership in the registry\<close>

text \<open>
  C9, as the spec states it, at monitor 1 on an idle thread: registered twice and
  deregistered once, the monitor is no longer registered.
\<close>

theorem register_twice_counterexample:
  "\<not> monitorRegistered 1 (deregisterMonitor 1 (registerMonitor 1 (registerMonitor 1 idle)))"
  by (simp add: monitorRegistered_def deregisterMonitor_def registerMonitor_def
      cancelAllTasks_def flat_set_erase_def flat_set_find_def idle_def)

text \<open>
  C9, amended. The registry is a set: a monitor registered twice and deregistered once
  is not registered, and neither is a monitor that is deregistered without having been
  registered.
\<close>

theorem deregister_removes:
  "monitorRegistered m (deregisterMonitor m (registerMonitor m (registerMonitor m s))) = False \<and>
   monitorRegistered m (deregisterMonitor m s) = False"
  by (simp add: monitorRegistered_def deregisterMonitor_def
      cancelAllTasks_def flat_set_erase_def flat_set_find_def)

section \<open>Error reporting\<close>

text \<open>
  C4. When the walk the spec describes from the downstream point of a process has the
  points \<open>ps\<close>, \<open>emitError\<close> returns, and it has made exactly the calls the spec asks
  for along \<open>ps\<close>, in that order, each with the point, the recorded error source and
  the message. The walk starts at the downstream point, each of its points but the last
  is followed by its input and is not the target, and when the downstream point is the
  target the walk is that single point.
\<close>

theorem emitError_walks_upstream:
  assumes "spec_walk G (m_plug self) n (m_downstream self) = Some ps"
  shows "emitError G self error s =
           Some (s\<lparr>trace := trace s @ spec_reports G (g_errorSource s) error ps\<rparr>) \<and>
         (case ps of [] \<Rightarrow> m_downstream self = None | pl # _ \<Rightarrow> m_downstream self = Some pl) \<and>
         (\<forall>i. Suc i < length ps \<longrightarrow>
            getInput G (ps ! i) = Some (ps ! Suc i) \<and> Some (ps ! i) \<noteq> m_plug self) \<and>
         (\<forall>t. m_plug self = Some t \<longrightarrow> m_downstream self = Some t \<longrightarrow> ps = [t])"
proof -
  have "emitError G self error s =
           Some (s\<lparr>trace := trace s @ spec_reports G (g_errorSource s) error ps\<rparr>)"
    unfolding emitError_def using assms by (rule emitError_loop_walk) simp
  moreover have "case ps of [] \<Rightarrow> m_downstream self = None | pl # _ \<Rightarrow> m_downstream self = Some pl"
    using assms by (rule spec_walk_start)
  moreover have "\<forall>i. Suc i < length ps \<longrightarrow>
            getInput G (ps ! i) = Some (ps ! Suc i) \<and> Some (ps ! i) \<noteq> m_plug self"
    using spec_walk_links [OF assms] by blast
  moreover have "\<forall>t. m_plug self = Some t \<longrightarrow> m_downstream self = Some t \<longrightarrow> ps = [t]"
    using assms by (auto dest: spec_walk_target)
  ultimately show ?thesis by blast
qed

theorem emitError_walks_upstream_witness:
  "spec_walk line_graph (Some 2) 4 (Some 5) = Some [5, 4, 3, 2] \<and>
   emitError line_graph (Process 7 ''compute'' (Some 2) (Some 5) None) ''boom''
       (idle\<lparr>g_errorSource := Some 2\<rparr>) =
     Some (idle\<lparr>g_errorSource := Some 2,
            trace := [ErrorSignal 14 4 (Some 2) ''boom'', ErrorSignal 12 2 (Some 2) ''boom'']\<rparr>) \<and>
   getInput line_graph 5 = Some 4 \<and>
   spec_walk line_graph (Some 4) 1 (Some 4) = Some [4] \<and>
   emitError line_graph (Process 8 ''hash'' (Some 4) (Some 4) None) ''boom''
       (idle\<lparr>g_errorSource := Some 2\<rparr>) =
     Some (idle\<lparr>g_errorSource := Some 2, trace := [ErrorSignal 14 4 (Some 2) ''boom'']\<rparr>)"
proof -
  let ?s = "idle\<lparr>g_errorSource := Some 2\<rparr>"
  have w0: "spec_walk line_graph (Some 2) 4 (Some 5) = Some [5, 4, 3, 2]"
    by (simp add: line_graph_def eval_nat_numeral)
  have v0: "spec_walk line_graph (Some 4) 1 (Some 4) = Some [4]"
    by simp
  have w: "spec_walk line_graph (m_plug (Process 7 ''compute'' (Some 2) (Some 5) None)) 4
             (m_downstream (Process 7 ''compute'' (Some 2) (Some 5) None)) = Some [5, 4, 3, 2]"
    using w0 by simp
  have v: "spec_walk line_graph (m_plug (Process 8 ''hash'' (Some 4) (Some 4) None)) 1
             (m_downstream (Process 8 ''hash'' (Some 4) (Some 4) None)) = Some [4]"
    using v0 by simp
  have r4: "spec_reports line_graph (Some 2) ''boom'' [5, 4, 3, 2] =
      [ErrorSignal 14 4 (Some 2) ''boom'', ErrorSignal 12 2 (Some 2) ''boom'']"
    by (simp add: spec_reports_def line_graph_def)
  have r1: "spec_reports line_graph (Some 2) ''boom'' [4] = [ErrorSignal 14 4 (Some 2) ''boom'']"
    by (simp add: spec_reports_def line_graph_def)
  note tw = emitError_walks_upstream [OF w, of "''boom''" ?s]
  note tv = emitError_walks_upstream [OF v, of "''boom''" ?s]
  have a: "emitError line_graph (Process 7 ''compute'' (Some 2) (Some 5) None) ''boom'' ?s =
     Some (idle\<lparr>g_errorSource := Some 2,
            trace := [ErrorSignal 14 4 (Some 2) ''boom'', ErrorSignal 12 2 (Some 2) ''boom'']\<rparr>)"
    using tw [THEN conjunct1] by (simp add: r4 idle_def)
  have b: "emitError line_graph (Process 8 ''hash'' (Some 4) (Some 4) None) ''boom'' ?s =
     Some (idle\<lparr>g_errorSource := Some 2, trace := [ErrorSignal 14 4 (Some 2) ''boom'']\<rparr>)"
    using tv [THEN conjunct1] by (simp add: r1 idle_def)
  have c: "getInput line_graph 5 = Some 4"
    using tw [THEN conjunct2, THEN conjunct2, THEN conjunct1, THEN spec, of 0] by simp
  from w0 a c v0 b show ?thesis by blast
qed

section \<open>Exception handling\<close>

text \<open>
  C5. With cooperative cancellation as the active exception, \<open>handleException\<close> throws
  \<open>Cancelled\<close> again and leaves the state as it was: no error source is recorded and
  no error signal is emitted.
\<close>

theorem handleException_cancelled:
  "handleException G self Cancelled s = Some (Inl Cancelled, s)"
  by (simp add: handleException_def)

text \<open>
  C6. With any other active exception, and a walk of \<open>emitError\<close> that ends,
  \<open>handleException\<close> records the source if none is recorded, runs \<open>emitError\<close> with
  the message of a typed exception or with \<open>Unknown error\<close> for an untyped one, and
  throws the same exception again. Whatever the exception, \<open>handleException\<close> never
  returns normally.
\<close>

theorem handleException_rethrows:
  assumes "spec_walk G (m_plug self) n (m_downstream self) = Some ps"
  shows "(\<exists>s2. emitError G self what
                  (if g_errorSource s = None then s\<lparr>g_errorSource := m_plug self\<rparr> else s) = Some s2 \<and>
               handleException G self (StdException what) s = Some (Inl (StdException what), s2)) \<and>
         (\<exists>s2. emitError G self ''Unknown error''
                  (if g_errorSource s = None then s\<lparr>g_errorSource := m_plug self\<rparr> else s) = Some s2 \<and>
               handleException G self (Untyped x) s = Some (Inl (Untyped x), s2)) \<and>
         (\<forall>e r s'. handleException G self e s = Some (r, s') \<longrightarrow> r = Inl e)"
proof -
  have fin: "\<And>msg s0. \<exists>s2. emitError G self msg s0 = Some s2"
    unfolding emitError_def using emitError_loop_walk [OF assms] by simp
  have never: "\<forall>e r s'. handleException G self e s = Some (r, s') \<longrightarrow> r = Inl e"
    by (auto simp: handleException_def Let_def split: exn.splits option.splits if_splits)
  from fin [of what "if g_errorSource s = None then s\<lparr>g_errorSource := m_plug self\<rparr> else s"]
  have a: "\<exists>s2. emitError G self what
                  (if g_errorSource s = None then s\<lparr>g_errorSource := m_plug self\<rparr> else s) = Some s2 \<and>
               handleException G self (StdException what) s = Some (Inl (StdException what), s2)"
    by (auto simp: handleException_def Let_def)
  from fin [of "''Unknown error''" "if g_errorSource s = None then s\<lparr>g_errorSource := m_plug self\<rparr> else s"]
  have b: "\<exists>s2. emitError G self ''Unknown error''
                  (if g_errorSource s = None then s\<lparr>g_errorSource := m_plug self\<rparr> else s) = Some s2 \<and>
               handleException G self (Untyped x) s = Some (Inl (Untyped x), s2)"
    by (auto simp: handleException_def Let_def)
  from a b never show ?thesis by blast
qed

theorem handleException_rethrows_witness:
  "spec_walk line_graph (Some 2) 4 (Some 5) = Some [5, 4, 3, 2] \<and>
   handleException line_graph (Process 7 ''compute'' (Some 2) (Some 5) None)
       (StdException ''boom'') idle =
     Some (Inl (StdException ''boom''),
           idle\<lparr>g_errorSource := Some 2,
                trace := [ErrorSignal 14 4 (Some 2) ''boom'', ErrorSignal 12 2 (Some 2) ''boom'']\<rparr>) \<and>
   handleException line_graph (Process 7 ''compute'' (Some 2) (Some 5) None)
       (Untyped 0) idle =
     Some (Inl (Untyped 0),
           idle\<lparr>g_errorSource := Some 2,
                trace := [ErrorSignal 14 4 (Some 2) ''Unknown error'',
                          ErrorSignal 12 2 (Some 2) ''Unknown error'']\<rparr>)"
proof -
  let ?p = "Process 7 ''compute'' (Some 2) (Some 5) None"
  let ?s = "if g_errorSource idle = None then idle\<lparr>g_errorSource := m_plug ?p\<rparr> else idle"
  have w0: "spec_walk line_graph (Some 2) 4 (Some 5) = Some [5, 4, 3, 2]"
    by (simp add: line_graph_def eval_nat_numeral)
  have w: "spec_walk line_graph (m_plug ?p) 4 (m_downstream ?p) = Some [5, 4, 3, 2]"
    using w0 by simp
  have r: "spec_reports line_graph (Some 2) msg [5, 4, 3, 2] =
      [ErrorSignal 14 4 (Some 2) msg, ErrorSignal 12 2 (Some 2) msg]" for msg
    by (simp add: spec_reports_def line_graph_def)
  have s: "?s = idle\<lparr>g_errorSource := Some 2\<rparr>"
    by (simp add: idle_def)
  have e: "emitError line_graph ?p msg ?s =
           Some (idle\<lparr>g_errorSource := Some 2,
                  trace := [ErrorSignal 14 4 (Some 2) msg, ErrorSignal 12 2 (Some 2) msg]\<rparr>)"
    for msg
    unfolding emitError_def s
    by (subst emitError_loop_walk [OF w]) (simp_all add: r idle_def)
  note t = handleException_rethrows [OF w, of "''boom''" idle 0]
  have a: "handleException line_graph ?p (StdException ''boom'') idle =
     Some (Inl (StdException ''boom''),
           idle\<lparr>g_errorSource := Some 2,
                trace := [ErrorSignal 14 4 (Some 2) ''boom'', ErrorSignal 12 2 (Some 2) ''boom'']\<rparr>)"
    using t [THEN conjunct1] unfolding e by blast
  have b: "handleException line_graph ?p (Untyped 0) idle =
     Some (Inl (Untyped 0),
           idle\<lparr>g_errorSource := Some 2,
                trace := [ErrorSignal 14 4 (Some 2) ''Unknown error'',
                          ErrorSignal 12 2 (Some 2) ''Unknown error'']\<rparr>)"
    using t [THEN conjunct2, THEN conjunct1] unfolding e by blast
  from w0 a b show ?thesis by blast
qed

section \<open>The error source of an unwind\<close>




section \<open>The order of the notifications\<close>

text \<open>
  C7, as the spec states it, on an idle thread: monitor 3 is registered first and
  monitor 2 second, and the constructor of a process notifies monitor 2 before
  monitor 3.
\<close>

theorem registration_order_counterexample:
  "trace (snd (Process_ctor 7 ''compute'' (Some 4) None
      (registerMonitor 2 (registerMonitor 3 idle)))) =
   [CancelAllTasks, CancelAllTasks,
    ProcessStarted 2 (Process 7 ''compute'' (Some 4) (Some 4) None),
    ProcessStarted 3 (Process 7 ''compute'' (Some 4) (Some 4) None)]"
  by (simp add: Process_ctor_def Canceller_check_def registerMonitor_def cancelAllTasks_def
      idle_def Let_def)

text \<open>
  C7, amended. The registry is sorted by address and without duplicates after any
  history of registrations and deregistrations that starts from an empty or any other
  such registry. In any state with such a registry, the constructor of a process
  notifies every registered monitor exactly once, in ascending order of the monitors'
  addresses, whatever the order in which the monitors were registered; so does the
  destructor, for that process right after its construction and for any process in
  any state with the same registry.
\<close>

theorem monitors_notified_in_address_order:
  assumes "sorted (g_activeMonitors s)" and "distinct (g_activeMonitors s)"
    and "Process_ctor a type plug downstream s = (Inr p, s1)"
  shows "(\<exists>ms. sorted ms \<and> distinct ms \<and> (\<forall>m. (m \<in> set ms) = monitorRegistered m s) \<and>
            trace s1 = trace s @ map (\<lambda>m. ProcessStarted m p) ms \<and>
            trace (Process_dtor p s1) = trace s1 @ map (\<lambda>m. ProcessFinished m p) ms \<and>
            (\<forall>q s2. g_activeMonitors s2 = g_activeMonitors s \<longrightarrow>
               trace (Process_dtor q s2) = trace s2 @ map (\<lambda>m. ProcessFinished m q) ms)) \<and>
         (\<forall>ops. sorted (g_activeMonitors (fold apply_registry_op ops s)) \<and>
                distinct (g_activeMonitors (fold apply_registry_op ops s))) \<and>
         (\<forall>ops s0. g_activeMonitors s0 = [] \<longrightarrow>
            sorted (g_activeMonitors (fold apply_registry_op ops s0)) \<and>
            distinct (g_activeMonitors (fold apply_registry_op ops s0)))"
proof -
  have reg: "g_activeMonitors s1 = g_activeMonitors s"
    using assms(3)
    by (auto simp: Process_ctor_def Canceller_check_def processStarted_loop_eq Let_def
        split: if_splits)
  have fin: "trace (Process_dtor q s2) = trace s2 @ map (\<lambda>m. ProcessFinished m q) (g_activeMonitors s)"
    if "g_activeMonitors s2 = g_activeMonitors s" for q s2
    using that by (simp add: Process_dtor_def processFinished_loop_eq Let_def)
  have "\<forall>m. (m \<in> set (g_activeMonitors s)) = monitorRegistered m s"
    by (simp add: monitorRegistered_def flat_set_find_def)
  moreover have "trace s1 = trace s @ map (\<lambda>m. ProcessStarted m p) (g_activeMonitors s)"
    using assms(3)
    by (auto simp: Process_ctor_def Canceller_check_def processStarted_loop_eq Let_def
        split: if_splits)
  moreover have "trace (Process_dtor p s1) = trace s1 @ map (\<lambda>m. ProcessFinished m p) (g_activeMonitors s)"
    using reg by (rule fin)
  moreover have "\<forall>q s2. g_activeMonitors s2 = g_activeMonitors s \<longrightarrow>
      trace (Process_dtor q s2) = trace s2 @ map (\<lambda>m. ProcessFinished m q) (g_activeMonitors s)"
    using fin by blast
  ultimately have first: "\<exists>ms. sorted ms \<and> distinct ms \<and> (\<forall>m. (m \<in> set ms) = monitorRegistered m s) \<and>
            trace s1 = trace s @ map (\<lambda>m. ProcessStarted m p) ms \<and>
            trace (Process_dtor p s1) = trace s1 @ map (\<lambda>m. ProcessFinished m p) ms \<and>
            (\<forall>q s2. g_activeMonitors s2 = g_activeMonitors s \<longrightarrow>
               trace (Process_dtor q s2) = trace s2 @ map (\<lambda>m. ProcessFinished m q) ms)"
    using assms(1,2) by (intro exI [of _ "g_activeMonitors s"]) simp
  have second: "\<forall>ops. sorted (g_activeMonitors (fold apply_registry_op ops s)) \<and>
                distinct (g_activeMonitors (fold apply_registry_op ops s))"
    using assms(1,2) fold_registry_sorted by blast
  have third: "\<forall>ops s0. g_activeMonitors s0 = [] \<longrightarrow>
            sorted (g_activeMonitors (fold apply_registry_op ops s0)) \<and>
            distinct (g_activeMonitors (fold apply_registry_op ops s0))"
  proof (intro allI impI)
    fix ops and s0 :: state
    assume "g_activeMonitors s0 = []"
    then have "sorted (g_activeMonitors s0) \<and> distinct (g_activeMonitors s0)" by simp
    then show "sorted (g_activeMonitors (fold apply_registry_op ops s0)) \<and>
            distinct (g_activeMonitors (fold apply_registry_op ops s0))"
      by (rule fold_registry_sorted)
  qed
  from first second third show ?thesis by blast
qed

theorem monitors_notified_in_address_order_witness:
  "snd (Process_ctor 7 ''compute'' (Some 4) None (registerMonitor 2 (registerMonitor 3 idle))) =
     idle\<lparr>m_process := Some (Process 7 ''compute'' (Some 4) (Some 4) None),
          g_activeMonitors := [2, 3],
          trace := [CancelAllTasks, CancelAllTasks,
                    ProcessStarted 2 (Process 7 ''compute'' (Some 4) (Some 4) None),
                    ProcessStarted 3 (Process 7 ''compute'' (Some 4) (Some 4) None)]\<rparr> \<and>
   sorted [2, 3 :: nat] \<and> distinct [2, 3 :: nat] \<and>
   Process_ctor 8 ''hash'' (Some 5) None
       (idle\<lparr>m_process := Some (Process 7 ''compute'' (Some 4) (Some 4) None),
             g_activeMonitors := [2, 3],
             trace := [CancelAllTasks, CancelAllTasks,
                       ProcessStarted 2 (Process 7 ''compute'' (Some 4) (Some 4) None),
                       ProcessStarted 3 (Process 7 ''compute'' (Some 4) (Some 4) None)]\<rparr>) =
     (Inr (Process 8 ''hash'' (Some 5) (Some 5)
             (Some (Process 7 ''compute'' (Some 4) (Some 4) None))),
      idle\<lparr>m_process := Some (Process 8 ''hash'' (Some 5) (Some 5)
               (Some (Process 7 ''compute'' (Some 4) (Some 4) None))),
           g_activeMonitors := [2, 3],
           trace := [CancelAllTasks, CancelAllTasks,
                     ProcessStarted 2 (Process 7 ''compute'' (Some 4) (Some 4) None),
                     ProcessStarted 3 (Process 7 ''compute'' (Some 4) (Some 4) None),
                     ProcessStarted 2 (Process 8 ''hash'' (Some 5) (Some 5)
                        (Some (Process 7 ''compute'' (Some 4) (Some 4) None))),
                     ProcessStarted 3 (Process 8 ''hash'' (Some 5) (Some 5)
                        (Some (Process 7 ''compute'' (Some 4) (Some 4) None)))]\<rparr>) \<and>
   trace (Process_dtor
       (Process 8 ''hash'' (Some 5) (Some 5) (Some (Process 7 ''compute'' (Some 4) (Some 4) None)))
       (idle\<lparr>m_process := Some (Process 8 ''hash'' (Some 5) (Some 5)
               (Some (Process 7 ''compute'' (Some 4) (Some 4) None))),
           g_activeMonitors := [2, 3],
           trace := [CancelAllTasks, CancelAllTasks,
                     ProcessStarted 2 (Process 7 ''compute'' (Some 4) (Some 4) None),
                     ProcessStarted 3 (Process 7 ''compute'' (Some 4) (Some 4) None),
                     ProcessStarted 2 (Process 8 ''hash'' (Some 5) (Some 5)
                        (Some (Process 7 ''compute'' (Some 4) (Some 4) None))),
                     ProcessStarted 3 (Process 8 ''hash'' (Some 5) (Some 5)
                        (Some (Process 7 ''compute'' (Some 4) (Some 4) None)))]\<rparr>)) =
     [CancelAllTasks, CancelAllTasks,
      ProcessStarted 2 (Process 7 ''compute'' (Some 4) (Some 4) None),
      ProcessStarted 3 (Process 7 ''compute'' (Some 4) (Some 4) None),
      ProcessStarted 2 (Process 8 ''hash'' (Some 5) (Some 5)
         (Some (Process 7 ''compute'' (Some 4) (Some 4) None))),
      ProcessStarted 3 (Process 8 ''hash'' (Some 5) (Some 5)
         (Some (Process 7 ''compute'' (Some 4) (Some 4) None))),
      ProcessFinished 2 (Process 8 ''hash'' (Some 5) (Some 5)
         (Some (Process 7 ''compute'' (Some 4) (Some 4) None))),
      ProcessFinished 3 (Process 8 ''hash'' (Some 5) (Some 5)
         (Some (Process 7 ''compute'' (Some 4) (Some 4) None)))]"
proof -
  let ?A = "Process 7 ''compute'' (Some 4) (Some 4) None"
  let ?B = "Process 8 ''hash'' (Some 5) (Some 5) (Some ?A)"
  let ?t = "[CancelAllTasks, CancelAllTasks, ProcessStarted 2 ?A, ProcessStarted 3 ?A]"
  let ?s = "idle\<lparr>m_process := Some ?A, g_activeMonitors := [2, 3], trace := ?t\<rparr>"
  let ?s1 = "idle\<lparr>m_process := Some ?B, g_activeMonitors := [2, 3],
                  trace := ?t @ [ProcessStarted 2 ?B, ProcessStarted 3 ?B]\<rparr>"
  have r: "snd (Process_ctor 7 ''compute'' (Some 4) None
      (registerMonitor 2 (registerMonitor 3 idle))) = ?s"
    by (simp add: Process_ctor_def Canceller_check_def registerMonitor_def cancelAllTasks_def
        idle_def Let_def)
  have h1: "sorted (g_activeMonitors ?s)" and h2: "distinct (g_activeMonitors ?s)"
    by simp_all
  have h3: "Process_ctor 8 ''hash'' (Some 5) None ?s = (Inr ?B, ?s1)"
    by (simp add: Process_ctor_def Canceller_check_def idle_def Let_def)
  from monitors_notified_in_address_order [OF h1 h2 h3, THEN conjunct1]
  obtain ms where ms: "trace ?s1 = trace ?s @ map (\<lambda>m. ProcessStarted m ?B) ms"
    "trace (Process_dtor ?B ?s1) = trace ?s1 @ map (\<lambda>m. ProcessFinished m ?B) ms"
    by blast
  from ms(1) have "map (\<lambda>m. ProcessStarted m ?B) ms = map (\<lambda>m. ProcessStarted m ?B) [2, 3]"
    by simp
  then have "ms = [2, 3]"
    by (rule map_injective) (simp add: inj_on_def)
  with ms(2) have fin: "trace (Process_dtor ?B ?s1) =
      ?t @ [ProcessStarted 2 ?B, ProcessStarted 3 ?B, ProcessFinished 2 ?B, ProcessFinished 3 ?B]"
    by simp
  have srt: "sorted [2, 3 :: nat]" "distinct [2, 3 :: nat]"
    by simp_all
  from r srt h3 fin show ?thesis by simp
qed

section \<open>The stack of processes of a thread\<close>

text \<open>
  C3. On a thread that starts idle, after any run of constructions (failed ones
  included) and destructions, each destruction being the destructor body followed by
  the release of the thread-state scope, \<open>current\<close> returns the most recently
  constructed process that is not yet destroyed, or none when there is none, and the
  parent chain of that process is the list of the constructed and not yet destroyed
  processes, the most recent first.
\<close>

theorem current_is_most_recent:
  assumes "current s = None" and "run ops (s, []) = (s', live)"
  shows "current s' = (case live of [] \<Rightarrow> None | p # _ \<Rightarrow> Some p) \<and> current_chain s' = live"
  using assms by (intro run_linked [where s = s and live = "[]" and ops = ops])
    (simp_all add: current_chain_def)

theorem current_is_most_recent_witness:
  "current idle = None \<and>
   run [Construct 7 ''compute'' (Some 2) None, Construct 8 ''hash'' (Some 3) (Some 4),
        Construct 9 ''compute'' (Some 4) None, Destruct] (idle, []) =
     (idle\<lparr>m_process := Some (Process 8 ''hash'' (Some 3) (Some 4)
                (Some (Process 7 ''compute'' (Some 2) (Some 2) None)))\<rparr>,
      [Process 8 ''hash'' (Some 3) (Some 4) (Some (Process 7 ''compute'' (Some 2) (Some 2) None)),
       Process 7 ''compute'' (Some 2) (Some 2) None]) \<and>
   current (idle\<lparr>m_process := Some (Process 8 ''hash'' (Some 3) (Some 4)
                (Some (Process 7 ''compute'' (Some 2) (Some 2) None)))\<rparr>) =
     Some (Process 8 ''hash'' (Some 3) (Some 4) (Some (Process 7 ''compute'' (Some 2) (Some 2) None))) \<and>
   current_chain (idle\<lparr>m_process := Some (Process 8 ''hash'' (Some 3) (Some 4)
                (Some (Process 7 ''compute'' (Some 2) (Some 2) None)))\<rparr>) =
     [Process 8 ''hash'' (Some 3) (Some 4) (Some (Process 7 ''compute'' (Some 2) (Some 2) None)),
      Process 7 ''compute'' (Some 2) (Some 2) None]"
proof -
  let ?A = "Process 7 ''compute'' (Some 2) (Some 2) None"
  let ?B = "Process 8 ''hash'' (Some 3) (Some 4) (Some ?A)"
  have h1: "current idle = None"
    by (simp add: current_def idle_def)
  have h2: "run [Construct 7 ''compute'' (Some 2) None, Construct 8 ''hash'' (Some 3) (Some 4),
        Construct 9 ''compute'' (Some 4) None, Destruct] (idle, []) =
     (idle\<lparr>m_process := Some ?B\<rparr>, [?B, ?A])"
    by (simp add: run_def Process_ctor_def Canceller_check_def Process_dtor_def
        Scope_release_def idle_def Let_def)
  from current_is_most_recent [OF h1 h2] have
    "current (idle\<lparr>m_process := Some ?B\<rparr>) = Some ?B \<and>
     current_chain (idle\<lparr>m_process := Some ?B\<rparr>) = [?B, ?A]"
    by simp
  with h1 h2 show ?thesis by blast
qed

end
